theory Spec2Isabelle
  imports Main "HOL-Library.Word"
begin

section \<open>Sparse two-dimensional matrix with proxy accessors\<close>

text \<open>
  This theory embeds \<^verbatim>\<open>include/sparse/matrix.hpp\<close>: the class template
  \<^verbatim>\<open>sparse::Matrix<T, Default, Index>\<close>, its private storage operations
  \<^verbatim>\<open>set\<close> and \<^verbatim>\<open>find\<close>, the two proxy classes \<^verbatim>\<open>RowProxy\<close> and
  \<^verbatim>\<open>CellProxy\<close>, \<^verbatim>\<open>size\<close>, and the forward iterator over occupied cells.

  Conventions of the embedding:
  \<^item> \<^verbatim>\<open>Index\<close> is a signed machine integer of any width: a word \<open>'n word\<close> that is
    compared with the signed order \<open><s\<close> (the default \<^verbatim>\<open>std::int64_t\<close> is \<open>64 word\<close>).
  \<^item> \<^verbatim>\<open>T\<close> is a type variable \<open>'v\<close> with HOL equality for \<^verbatim>\<open>operator==\<close>; the non-type
    template argument \<^verbatim>\<open>Default\<close> is passed to every function that mentions it.
  \<^item> Member functions that can touch \<^verbatim>\<open>data_\<close> take the matrix and, when they are
    part of the public accessor protocol, return it next to their result, so that
    "does not change the matrix" is a statement about the returned state.
  \<^item> The proxies hold a reference \<^verbatim>\<open>Matrix& m_\<close>; there is one matrix in the store
    of the model, which is the state that is passed along, so the proxies keep only
    their coordinates.
  \<^item> Isabelle does not accept identifiers ending in an underscore, and \<open>set\<close>,
    \<open>find\<close>, \<open>size\<close>, \<open>begin\<close> and \<open>end\<close> are taken: \<^verbatim>\<open>data_\<close> is \<open>data\<close>,
    \<^verbatim>\<open>x_\<close>, \<^verbatim>\<open>y_\<close> are \<open>row_x\<close>, \<open>cell_x\<close>, \<open>cell_y\<close>, \<^verbatim>\<open>it_\<close> is \<open>it\<close>, and the
    member functions carry the suffix \<open>_matrix\<close>.
\<close>

subsection \<open>Keys and their order\<close>

text \<open>\<^verbatim>\<open>struct Key { Index x{}; Index y{}; bool operator<(const Key& rhs) const noexcept; }\<close>\<close>

datatype 'i Key = Key (Key_x: 'i) (Key_y: 'i)

definition Key_less :: "'n::len word Key \<Rightarrow> 'n word Key \<Rightarrow> bool" where
  "Key_less lhs rhs \<longleftrightarrow>
     (Key_x lhs <s Key_x rhs) \<or> ((Key_x lhs = Key_x rhs) \<and> (Key_y lhs <s Key_y rhs))"

subsection \<open>The ordered map \<^verbatim>\<open>std::map<Key, T>\<close>\<close>

text \<open>
  The map is represented by the sequence of its entries in iteration order. A position in
  that sequence stands for a \<^verbatim>\<open>Map::const_iterator\<close>: \<^verbatim>\<open>cbegin()\<close> is position 0 and
  \<^verbatim>\<open>cend()\<close> is the length of the sequence. All searches use the comparison
  \<open>Key_less\<close> only, as the library does with the key's \<^verbatim>\<open>operator<\<close>.
\<close>

type_synonym ('i, 'v) Map = "('i Key \<times> 'v) list"

text \<open>The class invariant of the ordered map: keys strictly ascending.\<close>

definition map_inv :: "('n::len word, 'v) Map \<Rightarrow> bool" where
  "map_inv es \<longleftrightarrow> sorted_wrt Key_less (map fst es)"

definition map_cbegin :: "('i, 'v) Map \<Rightarrow> nat" where
  "map_cbegin es = 0"

definition map_cend :: "('i, 'v) Map \<Rightarrow> nat" where
  "map_cend es = length es"

definition map_size :: "('i, 'v) Map \<Rightarrow> nat" where
  "map_size es = length es"

text \<open>
  \<^verbatim>\<open>find(k)\<close>: the position of the entry whose key is equivalent to \<open>k\<close> (neither is less
  than the other), or \<^verbatim>\<open>end()\<close>.
\<close>

fun map_find :: "('n::len word, 'v) Map \<Rightarrow> 'n word Key \<Rightarrow> nat" where
  "map_find [] k = 0"
| "map_find (e # es) k =
     (if Key_less (fst e) k then Suc (map_find es k)
      else if Key_less k (fst e) then Suc (length es)
      else 0)"

text \<open>\<^verbatim>\<open>erase(it)\<close>: removes the entry at a position.\<close>

definition map_erase :: "('i, 'v) Map \<Rightarrow> nat \<Rightarrow> ('i, 'v) Map" where
  "map_erase es i = take i es @ drop (Suc i) es"

text \<open>
  \<^verbatim>\<open>m[k] = v\<close>: \<^verbatim>\<open>operator[]\<close> inserts a value-initialised entry at the key's place
  when there is no equivalent key and returns a reference to the mapped value, which the
  assignment then overwrites; the value-initialised entry is never observed, so both
  steps are one function.
\<close>

fun map_subscript_assign ::
  "('n::len word, 'v) Map \<Rightarrow> 'n word Key \<Rightarrow> 'v \<Rightarrow> ('n word, 'v) Map" where
  "map_subscript_assign [] k v = [(k, v)]"
| "map_subscript_assign (e # es) k v =
     (if Key_less (fst e) k then e # map_subscript_assign es k v
      else if Key_less k (fst e) then (k, v) # e # es
      else (fst e, v) # es)"

subsection \<open>The matrix and its storage operations\<close>

record ('i, 'v) Matrix =
  data :: "('i, 'v) Map"

text \<open>A default-constructed matrix: the map is empty.\<close>

definition Matrix_init :: "('i, 'v) Matrix" where
  "Matrix_init = \<lparr>data = []\<rparr>"

text \<open>\<^verbatim>\<open>void set(Index x, Index y, const T& v)\<close>\<close>

definition set_matrix ::
  "'v \<Rightarrow> ('n::len word, 'v) Matrix \<Rightarrow> 'n word \<Rightarrow> 'n word \<Rightarrow> 'v \<Rightarrow> ('n word, 'v) Matrix" where
  "set_matrix Default m x y v =
     (if v = Default then
        (let it = map_find (data m) (Key x y)
         in if it \<noteq> map_cend (data m) then m\<lparr>data := map_erase (data m) it\<rparr> else m)
      else m\<lparr>data := map_subscript_assign (data m) (Key x y) v\<rparr>)"

text \<open>
  \<^verbatim>\<open>const T* find(Index x, Index y) const noexcept\<close>: the null pointer is \<open>None\<close>, a
  pointer to the mapped value is \<open>Some\<close> of that value.
\<close>

definition find_matrix :: "('n::len word, 'v) Matrix \<Rightarrow> 'n word \<Rightarrow> 'n word \<Rightarrow> 'v option" where
  "find_matrix m x y =
     (let it = map_find (data m) (Key x y)
      in if it = map_cend (data m) then None else Some (snd (data m ! it)))"

text \<open>\<^verbatim>\<open>std::size_t size() const noexcept\<close>\<close>

definition size_matrix :: "('i, 'v) Matrix \<Rightarrow> nat" where
  "size_matrix m = map_size (data m)"

subsection \<open>The accessor protocol\<close>

record 'i RowProxy =
  row_x :: 'i

record 'i CellProxy =
  cell_x :: 'i
  cell_y :: 'i

text \<open>\<^verbatim>\<open>RowProxy operator[](Index x)\<close> of the matrix.\<close>

definition Matrix_index ::
  "('i, 'v) Matrix \<Rightarrow> 'i \<Rightarrow> 'i RowProxy \<times> ('i, 'v) Matrix" where
  "Matrix_index m x = (\<lparr>row_x = x\<rparr>, m)"

text \<open>\<^verbatim>\<open>CellProxy operator[](Index y)\<close> of a row proxy.\<close>

definition RowProxy_index ::
  "'i RowProxy \<Rightarrow> 'i \<Rightarrow> ('i, 'v) Matrix \<Rightarrow> 'i CellProxy \<times> ('i, 'v) Matrix" where
  "RowProxy_index r y m = (\<lparr>cell_x = row_x r, cell_y = y\<rparr>, m)"

text \<open>
  The accessors of a \<^verbatim>\<open>const\<close> matrix and of a \<^verbatim>\<open>const\<close> row proxy,
  \<^verbatim>\<open>const RowProxy operator[](Index x) const\<close> and
  \<^verbatim>\<open>const CellProxy operator[](Index y) const\<close>: both build the same proxy classes
  around \<^verbatim>\<open>const_cast<Matrix&>\<close> of the matrix, so the proxy they return refers to the
  one matrix of the store like any other. The \<^verbatim>\<open>const\<close> of the returned temporary is a
  qualifier of that temporary only and is not part of a copy of it
  (\<^verbatim>\<open>auto c = cm[x][y];\<close> declares a \<^verbatim>\<open>CellProxy\<close>); the values of the model are
  such copies.
\<close>

definition Matrix_index_const ::
  "('i, 'v) Matrix \<Rightarrow> 'i \<Rightarrow> 'i RowProxy \<times> ('i, 'v) Matrix" where
  "Matrix_index_const m x = (\<lparr>row_x = x\<rparr>, m)"

definition RowProxy_index_const ::
  "'i RowProxy \<Rightarrow> 'i \<Rightarrow> ('i, 'v) Matrix \<Rightarrow> 'i CellProxy \<times> ('i, 'v) Matrix" where
  "RowProxy_index_const r y m = (\<lparr>cell_x = row_x r, cell_y = y\<rparr>, m)"

text \<open>\<^verbatim>\<open>operator T() const\<close> of a cell proxy.\<close>

definition CellProxy_read ::
  "'v \<Rightarrow> 'n::len word CellProxy \<Rightarrow> ('n word, 'v) Matrix \<Rightarrow> 'v \<times> ('n word, 'v) Matrix" where
  "CellProxy_read Default c m =
     (case find_matrix m (cell_x c) (cell_y c) of
        Some p \<Rightarrow> (p, m)
      | None \<Rightarrow> (Default, m))"

text \<open>
  \<^verbatim>\<open>CellProxy& operator=(const T& v)\<close> (the overload taking \<^verbatim>\<open>T&&\<close> has the same
  body): the result \<^verbatim>\<open>*this\<close> is the proxy itself.
\<close>

definition CellProxy_assign ::
  "'v \<Rightarrow> 'n::len word CellProxy \<Rightarrow> 'v \<Rightarrow> ('n word, 'v) Matrix
     \<Rightarrow> 'n word CellProxy \<times> ('n word, 'v) Matrix" where
  "CellProxy_assign Default c v m = (c, set_matrix Default m (cell_x c) (cell_y c) v)"

text \<open>The expressions \<^verbatim>\<open>m[x][y]\<close> (in a value context) and \<^verbatim>\<open>m[x][y] = v\<close>.\<close>

definition read_at ::
  "'v \<Rightarrow> ('n::len word, 'v) Matrix \<Rightarrow> 'n word \<Rightarrow> 'n word \<Rightarrow> 'v \<times> ('n word, 'v) Matrix" where
  "read_at Default m x y =
     (let (r, m1) = Matrix_index m x; (c, m2) = RowProxy_index r y m1
      in CellProxy_read Default c m2)"

definition write_at ::
  "'v \<Rightarrow> ('n::len word, 'v) Matrix \<Rightarrow> 'n word \<Rightarrow> 'n word \<Rightarrow> 'v
     \<Rightarrow> 'n word CellProxy \<times> ('n word, 'v) Matrix" where
  "write_at Default m x y v =
     (let (r, m1) = Matrix_index m x; (c, m2) = RowProxy_index r y m1
      in CellProxy_assign Default c v m2)"

subsection \<open>The iterator over occupied cells\<close>

record iterator =
  it :: nat

definition begin_matrix :: "('i, 'v) Matrix \<Rightarrow> iterator" where
  "begin_matrix m = \<lparr>it = map_cbegin (data m)\<rparr>"

definition end_matrix :: "('i, 'v) Matrix \<Rightarrow> iterator" where
  "end_matrix m = \<lparr>it = map_cend (data m)\<rparr>"

text \<open>
  \<^verbatim>\<open>value_type operator*() const\<close>: dereferencing a position that is not at an entry is
  undefined in the source; the model gives \<open>None\<close> there.
\<close>

definition iterator_deref :: "('i, 'v) Matrix \<Rightarrow> iterator \<Rightarrow> ('i \<times> 'i \<times> 'v) option" where
  "iterator_deref m i =
     (if it i < length (data m)
      then Some (Key_x (fst (data m ! it i)), Key_y (fst (data m ! it i)), snd (data m ! it i))
      else None)"

definition iterator_incr :: "iterator \<Rightarrow> iterator" where
  "iterator_incr i = i\<lparr>it := Suc (it i)\<rparr>"

definition iterator_neq :: "iterator \<Rightarrow> iterator \<Rightarrow> bool" where
  "iterator_neq l r \<longleftrightarrow> it l \<noteq> it r"

text \<open>
  The range-based loop \<^verbatim>\<open>for (auto t : matrix)\<close> collecting each \<open>t\<close>: it runs from a
  position while that differs from \<^verbatim>\<open>end()\<close>, and it stops where a dereference would be
  undefined.
\<close>

function range_for :: "('i, 'v) Matrix \<Rightarrow> iterator \<Rightarrow> ('i \<times> 'i \<times> 'v) list" where
  "range_for m i =
     (if iterator_neq i (end_matrix m) then
        (case iterator_deref m i of
           Some t \<Rightarrow> t # range_for m (iterator_incr i)
         | None \<Rightarrow> [])
      else [])"
  by pat_completeness auto
termination
  by (relation "measure (\<lambda>(m, i). length (data m) - it i)")
     (auto simp: iterator_deref_def iterator_incr_def split: if_splits)

definition traversal :: "('i, 'v) Matrix \<Rightarrow> ('i \<times> 'i \<times> 'v) list" where
  "traversal m = range_for m (begin_matrix m)"

declare range_for.simps [simp del]

subsection \<open>Client expressions and the occupancy predicate\<close>

text \<open>
  The chained assignment of the header comment,
  \<^verbatim>\<open>((matrix[x][y] = a) = b) = c\<close>: each assignment is applied to the proxy that the
  previous one returned.
\<close>

definition chained_assign ::
  "'v \<Rightarrow> ('n::len word, 'v) Matrix \<Rightarrow> 'n word \<Rightarrow> 'n word \<Rightarrow> 'v \<Rightarrow> 'v \<Rightarrow> 'v
     \<Rightarrow> 'n word CellProxy \<times> ('n word, 'v) Matrix" where
  "chained_assign Default m x y a b c =
     (let (r, m0) = Matrix_index m x;
          (c0, m1) = RowProxy_index r y m0;
          (c1, m2) = CellProxy_assign Default c0 a m1;
          (c2, m3) = CellProxy_assign Default c1 b m2
      in CellProxy_assign Default c2 c m3)"

text \<open>A client's operations on one matrix, and a run of them from the empty matrix.\<close>

datatype ('i, 'v) operation = Write 'i 'i 'v | Read 'i 'i

fun perform ::
  "'v \<Rightarrow> ('n::len word, 'v) Matrix \<Rightarrow> ('n word, 'v) operation \<Rightarrow> ('n word, 'v) Matrix" where
  "perform Default m (Write x y v) = snd (write_at Default m x y v)"
| "perform Default m (Read x y) = snd (read_at Default m x y)"

definition run :: "'v \<Rightarrow> ('n::len word, 'v) operation list \<Rightarrow> ('n word, 'v) Matrix" where
  "run Default ops = foldl (perform Default) Matrix_init ops"

text \<open>No stored entry holds the default value.\<close>

definition no_default :: "'v \<Rightarrow> ('i, 'v) Matrix \<Rightarrow> bool" where
  "no_default Default m \<longleftrightarrow> list_all (\<lambda>e. snd e \<noteq> Default) (data m)"

section \<open>Auxiliary facts\<close>

subsection \<open>The key comparison is a strict total order\<close>

lemma Key_less_irrefl: "\<not> Key_less k k"
  by (simp add: Key_less_def word_sless_alt)

lemma Key_less_trans: "Key_less a b \<Longrightarrow> Key_less b c \<Longrightarrow> Key_less a c"
  by (auto simp: Key_less_def word_sless_alt)

lemma Key_less_asym: "Key_less a b \<Longrightarrow> \<not> Key_less b a"
  by (auto simp: Key_less_def word_sless_alt)

lemma sless_equiv: "\<not> a <s b \<Longrightarrow> \<not> b <s a \<Longrightarrow> a = (b :: 'n::len word)"
proof -
  assume "\<not> a <s b" "\<not> b <s a"
  then have "sint a = sint b" by (simp add: word_sless_alt)
  then show ?thesis by (rule signed_word_eqI)
qed

lemma Key_equiv: "\<not> Key_less a b \<Longrightarrow> \<not> Key_less b a \<Longrightarrow> a = b"
proof -
  assume ab: "\<not> Key_less a b" and ba: "\<not> Key_less b a"
  have x: "Key_x a = Key_x b"
    using ab ba by (intro sless_equiv) (auto simp: Key_less_def)
  have y: "Key_y a = Key_y b"
    using ab ba x by (intro sless_equiv) (auto simp: Key_less_def)
  from x y show ?thesis by (simp add: Key.expand)
qed

subsection \<open>Searching the ordered map\<close>

lemma map_find_le: "map_find es k \<le> length es"
  by (induction es) auto

lemma map_find_hit: "map_find es k < length es \<Longrightarrow> fst (es ! map_find es k) = k"
  by (induction es) (auto simp: Key_equiv split: if_splits)

lemma map_inv_Cons: "map_inv (e # es) \<longleftrightarrow> (\<forall>e' \<in> set es. Key_less (fst e) (fst e')) \<and> map_inv es"
  by (auto simp: map_inv_def)

lemma map_find_miss: "map_inv es \<Longrightarrow> map_find es k = length es \<Longrightarrow> k \<notin> fst ` set es"
proof (induction es)
  case Nil
  then show ?case by simp
next
  case (Cons e es)
  show ?case
  proof (cases "Key_less (fst e) k")
    case True
    with Cons show ?thesis by (auto simp: map_inv_Cons Key_less_irrefl)
  next
    case False
    with Cons.prems have lt: "Key_less k (fst e)" by (auto split: if_splits)
    have "Key_less k k'" if "k' \<in> fst ` set (e # es)" for k'
      using that lt Cons.prems(1) by (auto simp: map_inv_Cons intro: Key_less_trans)
    then show ?thesis using Key_less_irrefl by blast
  qed
qed

lemma map_find_iff: "map_inv es \<Longrightarrow> map_find es k = length es \<longleftrightarrow> k \<notin> fst ` set es"
proof
  assume "map_inv es" "map_find es k = length es"
  then show "k \<notin> fst ` set es" by (rule map_find_miss)
next
  assume nin: "k \<notin> fst ` set es"
  show "map_find es k = length es"
  proof (rule ccontr)
    assume "map_find es k \<noteq> length es"
    with map_find_le [of es k] have lt: "map_find es k < length es" by simp
    then have "fst (es ! map_find es k) = k" by (rule map_find_hit)
    with lt nin show False by (metis image_eqI nth_mem)
  qed
qed

lemma map_inv_distinct: "map_inv es \<Longrightarrow> distinct (map fst es)"
  by (induction es) (auto simp: map_inv_Cons Key_less_irrefl)

lemma find_matrix_map_of:
  "map_inv (data m) \<Longrightarrow> find_matrix m x y = map_of (data m) (Key x y)"
proof -
  assume inv: "map_inv (data m)"
  let ?es = "data m" and ?k = "Key x y"
  show ?thesis
  proof (cases "map_find ?es ?k = length ?es")
    case True
    with inv have "?k \<notin> fst ` set ?es" by (simp add: map_find_iff)
    then have "map_of ?es ?k = None" by (simp add: map_of_eq_None_iff)
    with True show ?thesis by (simp add: find_matrix_def map_cend_def)
  next
    case False
    with map_find_le [of ?es ?k] have lt: "map_find ?es ?k < length ?es" by simp
    then have k: "fst (?es ! map_find ?es ?k) = ?k" by (rule map_find_hit)
    have "?es ! map_find ?es ?k \<in> set ?es" using lt by simp
    then have "(?k, snd (?es ! map_find ?es ?k)) \<in> set ?es" using k by (metis prod.collapse)
    then have "map_of ?es ?k = Some (snd (?es ! map_find ?es ?k))"
      using map_inv_distinct [OF inv] by simp
    with False show ?thesis by (simp add: find_matrix_def map_cend_def)
  qed
qed

subsection \<open>Insertion and removal in the ordered map\<close>

lemma length_map_subscript_assign:
  "length (map_subscript_assign es k v) =
     (if map_find es k = length es then Suc (length es) else length es)"
proof (induction es)
  case Nil
  show ?case by simp
next
  case (Cons e es)
  have "map_find es k \<le> length es" by (rule map_find_le)
  with Cons show ?case by auto
qed

lemma keys_map_subscript_assign:
  "fst ` set (map_subscript_assign es k v) \<subseteq> insert k (fst ` set es)"
  by (induction es) auto

lemma map_inv_map_subscript_assign:
  "map_inv es \<Longrightarrow> map_inv (map_subscript_assign es k v)"
proof (induction es)
  case Nil
  show ?case by (simp add: map_inv_def)
next
  case (Cons e es)
  from Cons.prems have inv: "map_inv es" and above: "\<forall>e' \<in> set es. Key_less (fst e) (fst e')"
    by (simp_all add: map_inv_Cons)
  consider (less) "Key_less (fst e) k"
    | (greater) "\<not> Key_less (fst e) k" "Key_less k (fst e)"
    | (equiv) "\<not> Key_less (fst e) k" "\<not> Key_less k (fst e)"
    by blast
  then show ?case
  proof cases
    case less
    have "Key_less (fst e) (fst e')" if "e' \<in> set (map_subscript_assign es k v)" for e'
    proof -
      from that have "fst e' \<in> insert k (fst ` set es)"
        using keys_map_subscript_assign [of es k v] by blast
      with less above show ?thesis by auto
    qed
    with less Cons.IH [OF inv] show ?thesis by (simp add: map_inv_Cons)
  next
    case greater
    have "Key_less k (fst e')" if "e' \<in> set es" for e'
      using that above greater(2) by (blast intro: Key_less_trans)
    with greater Cons.prems show ?thesis by (simp add: map_inv_Cons)
  next
    case equiv
    with Cons.prems show ?thesis by (simp add: map_inv_Cons)
  qed
qed

lemma map_of_map_subscript_assign:
  "map_of (map_subscript_assign es k v) = (map_of es)(k \<mapsto> v)"
proof (induction es)
  case Nil
  show ?case by simp
next
  case (Cons e es)
  show ?case
  proof (cases "Key_less (fst e) k")
    case True
    then have "fst e \<noteq> k" using Key_less_irrefl by auto
    with True Cons.IH show ?thesis by (auto simp: fun_upd_twist)
  next
    case False
    show ?thesis
    proof (cases "Key_less k (fst e)")
      case True
      with False show ?thesis by (simp add: fun_eq_iff)
    next
      case nlt: False
      with False have "k = fst e" by (intro Key_equiv)
      with False nlt show ?thesis by (simp add: fun_eq_iff)
    qed
  qed
qed

lemma map_erase_Cons_0: "map_erase (e # es) 0 = es"
  by (simp add: map_erase_def)

lemma map_erase_Cons_Suc: "map_erase (e # es) (Suc i) = e # map_erase es i"
  by (simp add: map_erase_def)

lemma length_map_erase: "i < length es \<Longrightarrow> length (map_erase es i) = length es - 1"
  by (simp add: map_erase_def)

lemma set_map_erase: "set (map_erase es i) \<subseteq> set es"
  unfolding map_erase_def by (auto dest: in_set_takeD in_set_dropD)

lemma map_inv_map_erase: "map_inv es \<Longrightarrow> map_inv (map_erase es i)"
proof (induction es arbitrary: i)
  case Nil
  show ?case by (simp add: map_erase_def map_inv_def)
next
  case (Cons e es)
  show ?case
  proof (cases i)
    case 0
    with Cons.prems show ?thesis by (simp add: map_erase_Cons_0 map_inv_Cons)
  next
    case (Suc j)
    with Cons show ?thesis
      using set_map_erase [of es j] by (auto simp: map_erase_Cons_Suc map_inv_Cons)
  qed
qed

lemma map_of_map_erase:
  "distinct (map fst es) \<Longrightarrow> i < length es \<Longrightarrow>
     map_of (map_erase es i) = (map_of es)(fst (es ! i) := None)"
proof (induction es arbitrary: i)
  case Nil
  then show ?case by simp
next
  case (Cons e es)
  show ?case
  proof (cases i)
    case 0
    from Cons.prems have "map_of es (fst e) = None"
      by (simp add: map_of_eq_None_iff)
    with 0 show ?thesis by (simp add: map_erase_Cons_0 fun_eq_iff)
  next
    case (Suc j)
    with Cons.prems have j: "j < length es" and d: "distinct (map fst es)" by simp_all
    have "es ! j \<in> set es" using j by simp
    with Cons.prems have "fst (es ! j) \<noteq> fst e" by (metis distinct.simps(2) image_eqI list.simps(9) list.set_map)
    with Suc Cons.IH [OF d j] show ?thesis
      by (auto simp: map_erase_Cons_Suc fun_upd_twist)
  qed
qed


subsection \<open>The storage operations of the matrix\<close>

lemma map_inv_set_matrix:
  "map_inv (data m) \<Longrightarrow> map_inv (data (set_matrix Default m x y v))"
  by (simp add: set_matrix_def Let_def map_inv_map_erase map_inv_map_subscript_assign)

lemma find_matrix_set_matrix:
  assumes "map_inv (data m)"
  shows "find_matrix (set_matrix Default m x y v) x' y' =
           (if x' = x \<and> y' = y then (if v = Default then None else Some v)
            else find_matrix m x' y')"
proof -
  let ?es = "data m" and ?k = "Key x y"
  have inv': "map_inv (data (set_matrix Default m x y v))"
    using assms by (rule map_inv_set_matrix)
  have "map_of (data (set_matrix Default m x y v)) =
          (map_of ?es)(?k := (if v = Default then None else Some v))"
  proof (cases "v = Default")
    case False
    then show ?thesis by (simp add: set_matrix_def map_of_map_subscript_assign)
  next
    case True
    show ?thesis
    proof (cases "map_find ?es ?k = length ?es")
      case miss: True
      with assms have "?k \<notin> fst ` set ?es" by (simp add: map_find_iff)
      then have "map_of ?es ?k = None" by (simp add: map_of_eq_None_iff)
      then have "(map_of ?es)(?k := None) = map_of ?es" by (simp add: fun_eq_iff)
      with True miss show ?thesis by (simp add: set_matrix_def map_cend_def)
    next
      case hit: False
      with map_find_le [of ?es ?k] have lt: "map_find ?es ?k < length ?es" by simp
      then have "fst (?es ! map_find ?es ?k) = ?k" by (rule map_find_hit)
      with map_of_map_erase [OF map_inv_distinct [OF assms] lt]
      have "map_of (map_erase ?es (map_find ?es ?k)) = (map_of ?es)(?k := None)" by simp
      with True hit show ?thesis by (simp add: set_matrix_def map_cend_def)
    qed
  qed
  then show ?thesis
    by (simp add: find_matrix_map_of [OF inv'] find_matrix_map_of [OF assms])
qed

lemma find_matrix_None_iff:
  "find_matrix m x y = None \<longleftrightarrow> map_find (data m) (Key x y) = length (data m)"
  by (simp add: find_matrix_def map_cend_def Let_def)

lemma size_set_matrix:
  "size_matrix (set_matrix Default m x y v) =
     (if v = Default
      then (if find_matrix m x y = None then size_matrix m else size_matrix m - 1)
      else (if find_matrix m x y = None then Suc (size_matrix m) else size_matrix m))"
proof -
  have "map_find (data m) (Key x y) \<le> length (data m)" by (rule map_find_le)
  then show ?thesis
    by (auto simp: find_matrix_None_iff size_matrix_def map_size_def set_matrix_def
          map_cend_def length_map_erase length_map_subscript_assign)
qed

subsection \<open>The range-based loop\<close>

lemma range_for_drop:
  "it i \<le> length (data m) \<Longrightarrow>
     range_for m i = map (\<lambda>e. (Key_x (fst e), Key_y (fst e), snd e)) (drop (it i) (data m))"
proof (induction m i rule: range_for.induct)
  case (1 m i)
  show ?case
  proof (cases "it i = length (data m)")
    case True
    then show ?thesis
      by (subst range_for.simps) (simp add: iterator_neq_def end_matrix_def map_cend_def)
  next
    case False
    with "1.prems" have lt: "it i < length (data m)" by simp
    let ?t = "(Key_x (fst (data m ! it i)), Key_y (fst (data m ! it i)), snd (data m ! it i))"
    have neq: "iterator_neq i (end_matrix m)"
      using False by (simp add: iterator_neq_def end_matrix_def map_cend_def)
    have deref: "iterator_deref m i = Some ?t"
      using lt by (simp add: iterator_deref_def)
    have "it (iterator_incr i) \<le> length (data m)"
      using lt by (simp add: iterator_incr_def)
    from "1.IH" [OF neq deref this]
    have "range_for m (iterator_incr i) =
            map (\<lambda>e. (Key_x (fst e), Key_y (fst e), snd e)) (drop (Suc (it i)) (data m))"
      by (simp add: iterator_incr_def)
    moreover have "drop (it i) (data m) = data m ! it i # drop (Suc (it i)) (data m)"
      using lt by (simp add: Cons_nth_drop_Suc)
    ultimately show ?thesis using neq deref by (subst range_for.simps) simp
  qed
qed

lemma traversal_eq:
  "traversal m = map (\<lambda>e. (Key_x (fst e), Key_y (fst e), snd e)) (data m)"
proof -
  have "it (begin_matrix m) = 0" by (simp add: begin_matrix_def map_cbegin_def)
  then show ?thesis using range_for_drop [of "begin_matrix m" m] by (simp add: traversal_def)
qed

subsection \<open>The index expressions\<close>

lemma write_at_eq: "write_at Default m x y v = (\<lparr>cell_x = x, cell_y = y\<rparr>, set_matrix Default m x y v)"
  by (simp add: write_at_def Matrix_index_def RowProxy_index_def CellProxy_assign_def)

lemma read_at_eq:
  "read_at Default m x y = (case find_matrix m x y of Some p \<Rightarrow> p | None \<Rightarrow> Default, m)"
  by (simp add: read_at_def Matrix_index_def RowProxy_index_def CellProxy_read_def split: option.splits)

subsection \<open>Invariants along a run\<close>

lemma list_all_map_subscript_assign:
  "list_all (\<lambda>e. snd e \<noteq> Default) es \<Longrightarrow> v \<noteq> Default \<Longrightarrow>
     list_all (\<lambda>e. snd e \<noteq> Default) (map_subscript_assign es k v)"
  by (induction es) auto

lemma list_all_map_erase: "list_all P es \<Longrightarrow> list_all P (map_erase es i)"
  using set_map_erase [of es i] by (auto simp: list_all_iff)

lemma no_default_set_matrix:
  "no_default Default m \<Longrightarrow> no_default Default (set_matrix Default m x y v)"
  by (simp add: no_default_def set_matrix_def Let_def list_all_map_erase
        list_all_map_subscript_assign)

lemma no_default_perform:
  "no_default Default m \<Longrightarrow> no_default Default (perform Default m op)"
  by (cases op) (simp_all add: write_at_eq read_at_eq no_default_set_matrix)

lemma map_inv_perform:
  "map_inv (data m) \<Longrightarrow> map_inv (data (perform Default m op))"
  by (cases op) (simp_all add: write_at_eq read_at_eq map_inv_set_matrix)

lemma foldl_perform_invs:
  "no_default Default m \<Longrightarrow> map_inv (data m) \<Longrightarrow>
     no_default Default (foldl (perform Default) m ops) \<and>
     map_inv (data (foldl (perform Default) m ops))"
  by (induction ops arbitrary: m) (simp_all add: no_default_perform map_inv_perform)

lemma run_invs: "no_default Default (run Default ops) \<and> map_inv (data (run Default ops))"
  unfolding run_def
  by (rule foldl_perform_invs) (simp_all add: Matrix_init_def no_default_def map_inv_def)

subsection \<open>What a write of the default value leaves stored\<close>

lemma set_map_erase_distinct:
  "distinct (map fst es) \<Longrightarrow> i < length es \<Longrightarrow>
     set (map_erase es i) = {e \<in> set es. fst e \<noteq> fst (es ! i)}"
proof (induction es arbitrary: i)
  case Nil
  then show ?case by simp
next
  case (Cons e es)
  show ?case
  proof (cases i)
    case 0
    from Cons.prems have nin: "fst e \<notin> fst ` set es" by simp
    have "fst e' \<noteq> fst e" if "e' \<in> set es" for e'
      using that nin by (metis imageI)
    then have "{e' \<in> set es. fst e' \<noteq> fst e} = set es" by blast
    with 0 show ?thesis by (auto simp: map_erase_Cons_0)
  next
    case (Suc j)
    with Cons.prems have j: "j < length es" and d: "distinct (map fst es)" by simp_all
    have "es ! j \<in> set es" using j by simp
    with Cons.prems have "fst (es ! j) \<noteq> fst e" by (metis distinct.simps(2) image_eqI list.simps(9) list.set_map)
    then have "{e' \<in> set (e # es). fst e' \<noteq> fst (es ! j)} =
                 insert e {e' \<in> set es. fst e' \<noteq> fst (es ! j)}"
      by auto
    moreover have "set (map_erase (e # es) (Suc j)) =
                     insert e {e' \<in> set es. fst e' \<noteq> fst (es ! j)}"
      by (simp only: map_erase_Cons_Suc list.set Cons.IH [OF d j])
    ultimately show ?thesis using Suc by simp
  qed
qed

lemma set_data_write_Default:
  assumes "map_inv (data m)"
  shows "set (data (set_matrix Default m x y Default)) = {e \<in> set (data m). fst e \<noteq> Key x y}"
proof (cases "map_find (data m) (Key x y) = length (data m)")
  case True
  with assms have "Key x y \<notin> fst ` set (data m)" by (simp add: map_find_iff)
  then have "{e \<in> set (data m). fst e \<noteq> Key x y} = set (data m)" by force
  with True show ?thesis by (simp add: set_matrix_def map_cend_def)
next
  case False
  with map_find_le [of "data m" "Key x y"]
  have lt: "map_find (data m) (Key x y) < length (data m)" by simp
  then have "fst (data m ! map_find (data m) (Key x y)) = Key x y" by (rule map_find_hit)
  with set_map_erase_distinct [OF map_inv_distinct [OF assms] lt] False
  show ?thesis by (simp add: set_matrix_def map_cend_def)
qed

lemma key_gone_write_Default:
  assumes "map_inv (data m)"
  shows "Key x y \<notin> fst ` set (data (set_matrix Default m x y Default))"
  using set_data_write_Default [OF assms, of Default x y] by auto

lemma run_snoc: "run Default (ops @ [op]) = perform Default (run Default ops) op"
  by (simp add: run_def)

subsection \<open>The chained assignment\<close>

lemma chained_assign_eq:
  "chained_assign Default m x y a b c =
     (\<lparr>cell_x = x, cell_y = y\<rparr>,
      set_matrix Default (set_matrix Default (set_matrix Default m x y a) x y b) x y c)"
  by (simp add: chained_assign_def Matrix_index_def RowProxy_index_def CellProxy_assign_def)

subsection \<open>The traversal as a list\<close>

lemma triple_in_traversal_iff:
  assumes "map_inv (data m)"
  shows "(x, y, v) \<in> set (traversal m) \<longleftrightarrow> find_matrix m x y = Some v"
proof -
  have "(x, y, v) \<in> set (traversal m) \<longleftrightarrow> (Key x y, v) \<in> set (data m)"
  proof
    assume "(x, y, v) \<in> set (traversal m)"
    then obtain e where e: "e \<in> set (data m)" "Key_x (fst e) = x" "Key_y (fst e) = y" "snd e = v"
      by (auto simp: traversal_eq)
    then have "e = (Key x y, v)" by (cases e) auto
    with e(1) show "(Key x y, v) \<in> set (data m)" by simp
  next
    assume "(Key x y, v) \<in> set (data m)"
    then show "(x, y, v) \<in> set (traversal m)" by (force simp: traversal_eq)
  qed
  also have "\<dots> \<longleftrightarrow> map_of (data m) (Key x y) = Some v"
    using map_inv_distinct [OF assms] by simp
  finally show ?thesis by (simp add: find_matrix_map_of [OF assms])
qed

lemma distinct_traversal_coordinates:
  assumes "map_inv (data m)"
  shows "distinct (map (\<lambda>(x, y, v). (x, y)) (traversal m))"
proof -
  have "map (\<lambda>(x, y, v). (x, y)) (traversal m) =
          map (\<lambda>k. (Key_x k, Key_y k)) (map fst (data m))"
    by (simp add: traversal_eq)
  moreover have "inj (\<lambda>k :: 'a word Key. (Key_x k, Key_y k))"
    by (rule injI) (simp add: Key.expand)
  ultimately show ?thesis
    using map_inv_distinct [OF assms] by (simp only: distinct_map) (auto intro: inj_on_subset)
qed

lemma sorted_traversal:
  assumes "map_inv (data m)"
  shows "sorted_wrt (\<lambda>(x1, y1, v1) (x2, y2, v2). x1 <s x2 \<or> (x1 = x2 \<and> y1 <s y2))
           (traversal m)"
  using assms by (simp add: traversal_eq map_inv_def sorted_wrt_map Key_less_def)

lemma stored_value_not_Default:
  assumes "map_inv (data m)" and "no_default Default m" and "find_matrix m x y = Some v"
  shows "v \<noteq> Default"
proof -
  from assms(1,3) have "map_of (data m) (Key x y) = Some v"
    by (simp add: find_matrix_map_of)
  then have "(Key x y, v) \<in> set (data m)" by (rule map_of_SomeD)
  with assms(2) show ?thesis by (auto simp: no_default_def list_all_iff)
qed

lemma triple_in_traversal_read_iff:
  assumes "map_inv (data m)" and "no_default Default m"
  shows "(x, y, v) \<in> set (traversal m) \<longleftrightarrow>
           v \<noteq> Default \<and> fst (read_at Default m x y) = v"
proof -
  have "find_matrix m x y = Some v \<longleftrightarrow> v \<noteq> Default \<and> fst (read_at Default m x y) = v"
  proof (cases "find_matrix m x y")
    case None
    then show ?thesis by (auto simp: read_at_eq)
  next
    case (Some p)
    with assms have "p \<noteq> Default" by (rule stored_value_not_Default)
    with Some show ?thesis by (auto simp: read_at_eq)
  qed
  then show ?thesis by (simp add: triple_in_traversal_iff [OF assms(1)])
qed

lemma data_run_descending:
  assumes "a \<noteq> Default" "b \<noteq> Default" "c \<noteq> Default"
  shows "data (run Default [Write (2::64 word) 1 a, Write 1 5 b, Write 1 2 c]) =
           [(Key 1 2, c), (Key 1 5, b), (Key 2 1, a)]"
  using assms
  by (simp add: run_def write_at_eq set_matrix_def Matrix_init_def Key_less_def word_sless_alt)

lemma data_run_ascending_overwrite:
  assumes "a \<noteq> Default" "b \<noteq> Default" "c \<noteq> Default" "d \<noteq> Default"
  shows "data (run Default [Write (1::64 word) 2 c, Write 1 5 b, Write 2 1 a, Write 1 2 d]) =
           [(Key 1 2, d), (Key 1 5, b), (Key 2 1, a)]"
  using assms
  by (simp add: run_def write_at_eq set_matrix_def Matrix_init_def Key_less_def word_sless_alt)

section \<open>Properties of the container\<close>

text \<open>
  C1. No stored entry ever holds the default value. After every sequence of writes and
  reads on a freshly constructed matrix all stored values differ from \<open>Default\<close>, and
  each single operation preserves that predicate from any state. A write of \<open>Default\<close>
  to a coordinate removes that coordinate's entry from the storage: afterwards no stored
  entry has the coordinate's key, the stored entries are exactly the earlier ones with
  another key, and a lookup of the coordinate finds nothing; when the coordinate had no
  entry the matrix is returned as it was. This holds from every state with the map's
  invariant and at the end of every run.
\<close>

theorem no_stored_Default:
  "no_default Default (run Default ops) \<and>
   (no_default Default m \<longrightarrow> no_default Default (perform Default m op)) \<and>
   (map_inv (data m) \<longrightarrow>
      find_matrix (snd (write_at Default m x y Default)) x y = None \<and>
      (find_matrix m x y = None \<longrightarrow> snd (write_at Default m x y Default) = m) \<and>
      Key x y \<notin> fst ` set (data (snd (write_at Default m x y Default))) \<and>
      set (data (snd (write_at Default m x y Default))) =
        {e \<in> set (data m). fst e \<noteq> Key x y}) \<and>
   Key x y \<notin> fst ` set (data (run Default (ops @ [Write x y Default]))) \<and>
   set (data (run Default (ops @ [Write x y Default]))) =
     {e \<in> set (data (run Default ops)). fst e \<noteq> Key x y}"
proof -
  have absent: "set_matrix Default m x y Default = m" if "find_matrix m x y = None"
    using that by (simp add: set_matrix_def find_matrix_None_iff map_cend_def)
  have inv: "map_inv (data (run Default ops))" by (simp add: run_invs)
  have run: "run Default (ops @ [Write x y Default]) =
               set_matrix Default (run Default ops) x y Default"
    by (simp add: run_snoc write_at_eq)
  have A: "no_default Default (run Default ops)" by (simp add: run_invs)
  have B: "no_default Default m \<longrightarrow> no_default Default (perform Default m op)"
    by (simp add: no_default_perform)
  have C: "map_inv (data m) \<longrightarrow>
      find_matrix (snd (write_at Default m x y Default)) x y = None \<and>
      (find_matrix m x y = None \<longrightarrow> snd (write_at Default m x y Default) = m) \<and>
      Key x y \<notin> fst ` set (data (snd (write_at Default m x y Default))) \<and>
      set (data (snd (write_at Default m x y Default))) =
        {e \<in> set (data m). fst e \<noteq> Key x y}"
  proof
    assume m: "map_inv (data m)"
    show "find_matrix (snd (write_at Default m x y Default)) x y = None \<and>
      (find_matrix m x y = None \<longrightarrow> snd (write_at Default m x y Default) = m) \<and>
      Key x y \<notin> fst ` set (data (snd (write_at Default m x y Default))) \<and>
      set (data (snd (write_at Default m x y Default))) =
        {e \<in> set (data m). fst e \<noteq> Key x y}"
      unfolding write_at_eq snd_conv
      using find_matrix_set_matrix [OF m, of Default x y Default x y] absent
        key_gone_write_Default [OF m, of x y Default] set_data_write_Default [OF m, of Default x y]
      by (intro conjI impI) simp_all
  qed
  have D: "Key x y \<notin> fst ` set (data (run Default (ops @ [Write x y Default])))"
    unfolding run by (rule key_gone_write_Default [OF inv])
  have E: "set (data (run Default (ops @ [Write x y Default]))) =
     {e \<in> set (data (run Default ops)). fst e \<noteq> Key x y}"
    unfolding run by (rule set_data_write_Default [OF inv])
  from A B C D E show ?thesis by (intro conjI)
qed

text \<open>
  The statement of C1 at concrete inputs: a run that writes and clears a cell, a one-entry
  matrix whose only entry is cleared, leaving the storage empty, the same matrix cleared
  at a coordinate without entry, and a two-entry run whose first entry is cleared.
\<close>

theorem no_stored_Default_witness:
  "no_default (0::int) (run 0 [Write (1::64 word) 2 7, Write 1 2 0, Read 5 5, Write 3 (-4) 9]) \<and>
   no_default (0::int) \<lparr>data = [(Key (1::64 word) 2, 7)]\<rparr> \<and>
   no_default 0 (perform 0 \<lparr>data = [(Key (1::64 word) 2, 7::int)]\<rparr> (Write 1 2 0)) \<and>
   map_inv (data \<lparr>data = [(Key (1::64 word) 2, 7::int)]\<rparr>) \<and>
   find_matrix (snd (write_at 0 \<lparr>data = [(Key (1::64 word) 2, 7::int)]\<rparr> 1 2 0)) 1 2 = None \<and>
   data (snd (write_at 0 \<lparr>data = [(Key (1::64 word) 2, 7::int)]\<rparr> 1 2 0)) = [] \<and>
   Key 1 2 \<notin> fst ` set (data (snd (write_at 0 \<lparr>data = [(Key (1::64 word) 2, 7::int)]\<rparr> 1 2 0))) \<and>
   find_matrix \<lparr>data = [(Key (1::64 word) 2, 7::int)]\<rparr> 3 4 = None \<and>
   snd (write_at 0 \<lparr>data = [(Key (1::64 word) 2, 7::int)]\<rparr> 3 4 0) =
     \<lparr>data = [(Key 1 2, 7)]\<rparr> \<and>
   data (run (0::int) [Write (1::64 word) 2 7, Write 3 (-4) 9, Write 1 2 0]) = [(Key 3 (-4), 9)]"
proof -
  let ?m = "\<lparr>data = [(Key (1::64 word) 2, 7::int)]\<rparr>"
  have nd: "no_default 0 ?m" by (simp add: no_default_def)
  have inv: "map_inv (data ?m)" by (simp add: map_inv_def)
  have absent: "find_matrix ?m 3 4 = None"
    by (simp add: find_matrix_def Key_less_def map_cend_def word_sless_alt)
  have erased: "data (snd (write_at 0 ?m 1 2 0)) = []"
    by (simp add: write_at_eq set_matrix_def map_cend_def map_erase_def Key_less_def)
  have after: "data (run (0::int) [Write (1::64 word) 2 7, Write 3 (-4) 9, Write 1 2 0]) =
                 [(Key 3 (-4), 9)]"
    by (simp add: run_def write_at_eq set_matrix_def Matrix_init_def map_cend_def map_erase_def
          Key_less_def word_sless_alt)
  note t1 = no_stored_Default
      [of 0 "[Write (1::64 word) 2 7, Write 1 2 0, Read 5 5, Write 3 (-4) 9]" ?m "Write 1 2 0" 1 2]
  note t2 = no_stored_Default [of 0 "[]" ?m "Write 1 2 0" 3 4]
  have c1: "no_default (0::int)
              (run 0 [Write (1::64 word) 2 7, Write 1 2 0, Read 5 5, Write 3 (-4) 9])"
    using t1 by (rule conjunct1)
  have c2: "no_default 0 (perform 0 ?m (Write 1 2 0))"
    using t1 nd by blast
  have c3: "find_matrix (snd (write_at 0 ?m 1 2 0)) 1 2 = None"
    using t1 inv by blast
  have c4: "Key 1 2 \<notin> fst ` set (data (snd (write_at 0 ?m 1 2 0)))"
    using t1 inv by blast
  have c5: "snd (write_at 0 ?m 3 4 0) = ?m"
    using t2 inv absent by blast
  from nd inv absent erased after c1 c2 c3 c4 c5
  show ?thesis by (intro conjI)
qed

text \<open>
  C2. Assignment to a cell handle writes through \<open>set_matrix\<close> and returns the handle it
  was applied to, so the chain \<^verbatim>\<open>((m[x][y] = a) = b) = w\<close> starts from the handle
  \<^verbatim>\<open>m[x][y]\<close> and, for \<open>w\<close> other than \<open>Default\<close>, leaves the cell reading \<open>w\<close> with
  one entry for it and no trace of \<open>a\<close> and \<open>b\<close>: the count is the old count, plus one
  when the cell was unoccupied before. On an empty matrix of integers with default 0,
  assigning 314, then 0, then 217 to cell (100, 100) leaves it reading 217 and the count
  at 1.
\<close>

theorem chained_assignment:
  "fst (CellProxy_assign Default c v m) = c \<and>
   snd (CellProxy_assign Default c v m) = set_matrix Default m (cell_x c) (cell_y c) v \<and>
   fst (chained_assign Default m x y a b w) = fst (RowProxy_index (fst (Matrix_index m x)) y m) \<and>
   (map_inv (data m) \<and> w \<noteq> Default \<longrightarrow>
      fst (read_at Default (snd (chained_assign Default m x y a b w)) x y) = w \<and>
      size_matrix (snd (chained_assign Default m x y a b w)) =
        (if find_matrix m x y = None then size_matrix m + 1 else size_matrix m)) \<and>
   fst (read_at (0::int) (snd (chained_assign 0 Matrix_init (100::64 word) 100 314 0 217)) 100 100)
     = 217 \<and>
   size_matrix (snd (chained_assign (0::int) Matrix_init (100::64 word) 100 314 0 217)) = 1"
proof -
  let ?s = "\<lambda>m v. set_matrix Default m x y v"
  have gen: "fst (read_at Default (?s (?s (?s m a) b) w) x y) = w \<and>
             size_matrix (?s (?s (?s m a) b) w) =
               (if find_matrix m x y = None then size_matrix m + 1 else size_matrix m)"
    if inv: "map_inv (data m)" and w: "w \<noteq> Default"
  proof -
    have inv1: "map_inv (data (?s m a))" using inv by (rule map_inv_set_matrix)
    have inv2: "map_inv (data (?s (?s m a) b))" using inv1 by (rule map_inv_set_matrix)
    have f1: "find_matrix (?s m a) x y = (if a = Default then None else Some a)"
      by (simp add: find_matrix_set_matrix [OF inv])
    have f2: "find_matrix (?s (?s m a) b) x y = (if b = Default then None else Some b)"
      by (simp add: find_matrix_set_matrix [OF inv1])
    have f3: "find_matrix (?s (?s (?s m a) b) w) x y = Some w"
      using w by (simp add: find_matrix_set_matrix [OF inv2])
    have sz: "size_matrix (?s (?s (?s m a) b) w) =
               (if find_matrix m x y = None then size_matrix m + 1 else size_matrix m)"
    proof (cases "find_matrix m x y = None")
      case True
      then show ?thesis using w f1 f2 by (simp add: size_set_matrix)
    next
      case False
      then have "map_find (data m) (Key x y) < length (data m)"
        using map_find_le [of "data m" "Key x y"] by (simp add: find_matrix_None_iff)
      then have "0 < size_matrix m" by (auto simp: size_matrix_def map_size_def)
      then show ?thesis using False w f1 f2 by (auto simp: size_set_matrix)
    qed
    from f3 sz show ?thesis by (simp add: read_at_eq)
  qed
  have init: "map_inv (data (Matrix_init :: (64 word, int) Matrix))"
    by (simp add: Matrix_init_def map_inv_def)
  have ex: "fst (read_at (0::int) (snd (chained_assign 0 Matrix_init (100::64 word) 100 314 0 217)) 100 100)
     = 217 \<and>
   size_matrix (snd (chained_assign (0::int) Matrix_init (100::64 word) 100 314 0 217)) = 1"
    by (simp add: chained_assign_eq read_at_eq set_matrix_def find_matrix_def Matrix_init_def
          map_cend_def map_erase_def size_matrix_def map_size_def Key_less_def)
  show ?thesis
    using gen ex
    by (simp add: chained_assign_eq CellProxy_assign_def Matrix_index_def RowProxy_index_def)
qed


text \<open>
  The statement of C2 for a matrix that holds one other entry: the chain at (100, 100)
  leaves that cell reading 217 and two entries in total.
\<close>

theorem chained_assignment_witness:
  "map_inv (data \<lparr>data = [(Key (7::64 word) 7, 1::int)]\<rparr>) \<and> (217::int) \<noteq> 0 \<and>
   fst (read_at 0 (snd (chained_assign 0 \<lparr>data = [(Key (7::64 word) 7, 1::int)]\<rparr>
          100 100 314 0 217)) 100 100) = 217 \<and>
   size_matrix (snd (chained_assign 0 \<lparr>data = [(Key (7::64 word) 7, 1::int)]\<rparr>
          100 100 314 0 217)) = 2"
proof -
  let ?m = "\<lparr>data = [(Key (7::64 word) 7, 1::int)]\<rparr>"
  have inv: "map_inv (data ?m)" by (simp add: map_inv_def)
  have absent: "find_matrix ?m 100 100 = None"
    by (simp add: find_matrix_def Key_less_def map_cend_def)
  have sz: "size_matrix ?m = 1" by (simp add: size_matrix_def map_size_def)
  from chained_assignment [of 0 _ _ ?m 100 100 314 0 217] inv absent sz
  show ?thesis by simp
qed

text \<open>
  C3. From every state of the container, after \<^verbatim>\<open>m[x][y] = v\<close> with \<open>v\<close> other than
  \<open>Default\<close> a read of \<^verbatim>\<open>m[x][y]\<close> gives \<open>v\<close>, and the count is one more than before
  if the cell was unoccupied.
\<close>

theorem write_read_round_trip:
  "map_inv (data m) \<Longrightarrow> v \<noteq> Default \<Longrightarrow>
     fst (read_at Default (snd (write_at Default m x y v)) x y) = v \<and>
     (find_matrix m x y = None \<longrightarrow>
        size_matrix (snd (write_at Default m x y v)) = size_matrix m + 1)"
  by (simp add: write_at_eq read_at_eq find_matrix_set_matrix size_set_matrix)

text \<open>
  The statement of C3 at a one-entry matrix and the unoccupied cell (3, -2).
\<close>

theorem write_read_round_trip_witness:
  "map_inv (data \<lparr>data = [(Key (7::64 word) 7, 1::int)]\<rparr>) \<and> (5::int) \<noteq> 0 \<and>
   find_matrix \<lparr>data = [(Key (7::64 word) 7, 1::int)]\<rparr> 3 (-2) = None \<and>
   fst (read_at 0 (snd (write_at 0 \<lparr>data = [(Key (7::64 word) 7, 1::int)]\<rparr> 3 (-2) 5)) 3 (-2)) = 5 \<and>
   size_matrix (snd (write_at 0 \<lparr>data = [(Key (7::64 word) 7, 1::int)]\<rparr> 3 (-2) 5)) = 2"
proof -
  let ?m = "\<lparr>data = [(Key (7::64 word) 7, 1::int)]\<rparr>"
  have inv: "map_inv (data ?m)" by (simp add: map_inv_def)
  have absent: "find_matrix ?m 3 (-2) = None"
    by (simp add: find_matrix_def Key_less_def map_cend_def)
  have sz: "size_matrix ?m = 1" by (simp add: size_matrix_def map_size_def)
  from write_read_round_trip [of ?m 5 0 3 "-2"] inv absent sz
  show ?thesis by simp
qed

text \<open>
  C4. From every state of the container, writing \<open>Default\<close> to an occupied cell lowers
  the count by exactly one and makes the cell read as \<open>Default\<close>; writing \<open>Default\<close> to
  an unoccupied cell leaves the count as it was.
\<close>

theorem default_elides_storage:
  "map_inv (data m) \<Longrightarrow>
     (find_matrix m x y \<noteq> None \<longrightarrow>
        size_matrix (snd (write_at Default m x y Default)) + 1 = size_matrix m \<and>
        fst (read_at Default (snd (write_at Default m x y Default)) x y) = Default) \<and>
     (find_matrix m x y = None \<longrightarrow>
        size_matrix (snd (write_at Default m x y Default)) = size_matrix m)"
proof -
  assume inv: "map_inv (data m)"
  have "0 < size_matrix m" if "find_matrix m x y \<noteq> None"
  proof -
    from that have "map_find (data m) (Key x y) < length (data m)"
      using map_find_le [of "data m" "Key x y"] by (simp add: find_matrix_None_iff)
    then show ?thesis by (auto simp: size_matrix_def map_size_def)
  qed
  then show ?thesis
    using inv by (auto simp: write_at_eq read_at_eq find_matrix_set_matrix size_set_matrix)
qed

text \<open>
  The statement of C4 at a one-entry matrix, for its occupied cell (7, 7) and for the
  unoccupied cell (3, -2).
\<close>

theorem default_elides_storage_witness:
  "map_inv (data \<lparr>data = [(Key (7::64 word) 7, 1::int)]\<rparr>) \<and>
   find_matrix \<lparr>data = [(Key (7::64 word) 7, 1::int)]\<rparr> 7 7 = Some 1 \<and>
   size_matrix \<lparr>data = [(Key (7::64 word) 7, 1::int)]\<rparr> = 1 \<and>
   size_matrix (snd (write_at 0 \<lparr>data = [(Key (7::64 word) 7, 1::int)]\<rparr> 7 7 0)) = 0 \<and>
   fst (read_at 0 (snd (write_at 0 \<lparr>data = [(Key (7::64 word) 7, 1::int)]\<rparr> 7 7 0)) 7 7) = 0 \<and>
   find_matrix \<lparr>data = [(Key (7::64 word) 7, 1::int)]\<rparr> 3 (-2) = None \<and>
   size_matrix (snd (write_at 0 \<lparr>data = [(Key (7::64 word) 7, 1::int)]\<rparr> 3 (-2) 0)) = 1"
proof -
  let ?m = "\<lparr>data = [(Key (7::64 word) 7, 1::int)]\<rparr>"
  have inv: "map_inv (data ?m)" by (simp add: map_inv_def)
  have present: "find_matrix ?m 7 7 = Some 1"
    by (simp add: find_matrix_def Key_less_def map_cend_def)
  have absent: "find_matrix ?m 3 (-2) = None"
    by (simp add: find_matrix_def Key_less_def map_cend_def)
  have sz: "size_matrix ?m = 1" by (simp add: size_matrix_def map_size_def)
  from default_elides_storage [of ?m 7 7 0] default_elides_storage [of ?m 3 "-2" 0]
    inv present absent sz
  show ?thesis by simp
qed


text \<open>
  C5. In every container state the read conversion of a cell handle returns the value of
  the entry stored for the handle's coordinate, and \<open>Default\<close> when no entry has that
  coordinate; \<^verbatim>\<open>m[x][y]\<close> in a value context is that read. The handle keeps no value of
  its own: read after an assignment through any handle \<open>c'\<close>, it gives the assigned value
  when \<open>c'\<close> has the same coordinate and the value it gave before otherwise.
\<close>

theorem read_reflects_storage:
  "map_inv (data m) \<Longrightarrow>
     ((Key (cell_x c) (cell_y c), v) \<in> set (data m) \<longrightarrow>
        fst (CellProxy_read Default c m) = v) \<and>
     (Key (cell_x c) (cell_y c) \<notin> fst ` set (data m) \<longrightarrow>
        fst (CellProxy_read Default c m) = Default) \<and>
     fst (read_at Default m x y) = (case find_matrix m x y of Some p \<Rightarrow> p | None \<Rightarrow> Default) \<and>
     fst (CellProxy_read Default c (snd (CellProxy_assign Default c' w m))) =
       (if cell_x c' = cell_x c \<and> cell_y c' = cell_y c then w
        else fst (CellProxy_read Default c m))"
proof -
  assume inv: "map_inv (data m)"
  let ?k = "Key (cell_x c) (cell_y c)"
  have f: "find_matrix m (cell_x c) (cell_y c) = map_of (data m) ?k"
    using inv by (rule find_matrix_map_of)
  have occupied: "fst (CellProxy_read Default c m) = v" if "(?k, v) \<in> set (data m)"
  proof -
    from that have "map_of (data m) ?k = Some v"
      using map_inv_distinct [OF inv] by simp
    then show ?thesis by (simp add: CellProxy_read_def f)
  qed
  have absent: "fst (CellProxy_read Default c m) = Default" if "?k \<notin> fst ` set (data m)"
  proof -
    from that have "map_of (data m) ?k = None" by (simp add: map_of_eq_None_iff)
    then show ?thesis by (simp add: CellProxy_read_def f)
  qed
  have fresh: "fst (CellProxy_read Default c (snd (CellProxy_assign Default c' w m))) =
       (if cell_x c' = cell_x c \<and> cell_y c' = cell_y c then w
        else fst (CellProxy_read Default c m))"
    by (auto simp: CellProxy_read_def CellProxy_assign_def find_matrix_set_matrix [OF inv]
          split: option.splits)
  from occupied absent fresh show ?thesis by (simp add: read_at_eq)
qed

text \<open>
  The statement of C5 at a one-entry matrix: the occupied cell (7, 7), the unoccupied
  cell (3, -2), and a read of (7, 7) after 9 was assigned to it.
\<close>

theorem read_reflects_storage_witness:
  "map_inv (data \<lparr>data = [(Key (7::64 word) 7, 1::int)]\<rparr>) \<and>
   (Key 7 7, 1) \<in> set (data \<lparr>data = [(Key (7::64 word) 7, 1::int)]\<rparr>) \<and>
   fst (CellProxy_read 0 \<lparr>cell_x = 7, cell_y = 7\<rparr>
          \<lparr>data = [(Key (7::64 word) 7, 1::int)]\<rparr>) = 1 \<and>
   Key 3 (-2) \<notin> fst ` set (data \<lparr>data = [(Key (7::64 word) 7, 1::int)]\<rparr>) \<and>
   fst (CellProxy_read 0 \<lparr>cell_x = 3, cell_y = -2\<rparr>
          \<lparr>data = [(Key (7::64 word) 7, 1::int)]\<rparr>) = 0 \<and>
   fst (CellProxy_read 0 \<lparr>cell_x = 7, cell_y = 7\<rparr>
          (snd (CellProxy_assign 0 \<lparr>cell_x = 7, cell_y = 7\<rparr> 9
             \<lparr>data = [(Key (7::64 word) 7, 1::int)]\<rparr>))) = 9"
proof -
  let ?m = "\<lparr>data = [(Key (7::64 word) 7, 1::int)]\<rparr>"
  have inv: "map_inv (data ?m)" by (simp add: map_inv_def)
  from read_reflects_storage [of ?m "\<lparr>cell_x = 7, cell_y = 7\<rparr>" 1 0 7 7 "\<lparr>cell_x = 7, cell_y = 7\<rparr>" 9]
    read_reflects_storage [of ?m "\<lparr>cell_x = 3, cell_y = -2\<rparr>" 1 0 7 7 "\<lparr>cell_x = 7, cell_y = 7\<rparr>" 9]
    inv
  show ?thesis by simp
qed

text \<open>
  C6. After every run of writes and reads from the empty matrix, a full traversal yields
  the triple \<open>(x, y, v)\<close> exactly for the occupied cells \<open>(x, y)\<close> with their stored
  value \<open>v\<close>, which are the cells that read as a value other than \<open>Default\<close>; no
  coordinate occurs twice; the triples ascend by \<open>x\<close> and then \<open>y\<close> (signed
  comparison); and there are as many triples as the count. The same holds from every
  state with the map's invariant. After writing the non-default values \<open>a\<close> to (2, 1),
  \<open>b\<close> to (1, 5) and \<open>c\<close> to (1, 2) into an empty matrix the traversal is
  (1, 2, c), (1, 5, b), (2, 1, a); after writing \<open>c\<close> to (1, 2), \<open>b\<close> to (1, 5),
  \<open>a\<close> to (2, 1) and then \<open>d\<close> to (1, 2) it is (1, 2, d), (1, 5, b), (2, 1, a).
\<close>

theorem traversal_ascending_complete:
  "(\<forall>x y v. (x, y, v) \<in> set (traversal (run Default ops)) \<longleftrightarrow>
              find_matrix (run Default ops) x y = Some v) \<and>
   (\<forall>x y v. (x, y, v) \<in> set (traversal (run Default ops)) \<longleftrightarrow>
              v \<noteq> Default \<and> fst (read_at Default (run Default ops) x y) = v) \<and>
   distinct (map (\<lambda>(x, y, v). (x, y)) (traversal (run Default ops))) \<and>
   sorted_wrt (\<lambda>(x1, y1, v1) (x2, y2, v2). x1 <s x2 \<or> (x1 = x2 \<and> y1 <s y2))
     (traversal (run Default ops)) \<and>
   length (traversal (run Default ops)) = size_matrix (run Default ops) \<and>
   (map_inv (data m) \<longrightarrow>
      (\<forall>x y v. (x, y, v) \<in> set (traversal m) \<longleftrightarrow> find_matrix m x y = Some v) \<and>
      distinct (map (\<lambda>(x, y, v). (x, y)) (traversal m)) \<and>
      sorted_wrt (\<lambda>(x1, y1, v1) (x2, y2, v2). x1 <s x2 \<or> (x1 = x2 \<and> y1 <s y2))
        (traversal m) \<and>
      length (traversal m) = size_matrix m) \<and>
   (a \<noteq> Default \<and> b \<noteq> Default \<and> c \<noteq> Default \<longrightarrow>
      traversal (run Default [Write (2::64 word) 1 a, Write 1 5 b, Write 1 2 c]) =
        [(1, 2, c), (1, 5, b), (2, 1, a)] \<and>
      size_matrix (run Default [Write (2::64 word) 1 a, Write 1 5 b, Write 1 2 c]) = 3) \<and>
   (a \<noteq> Default \<and> b \<noteq> Default \<and> c \<noteq> Default \<and> d \<noteq> Default \<longrightarrow>
      traversal (run Default [Write (1::64 word) 2 c, Write 1 5 b, Write 2 1 a, Write 1 2 d]) =
        [(1, 2, d), (1, 5, b), (2, 1, a)] \<and>
      size_matrix (run Default [Write (1::64 word) 2 c, Write 1 5 b, Write 2 1 a, Write 1 2 d])
        = 3)"
proof -
  have inv: "map_inv (data (run Default ops))" and nd: "no_default Default (run Default ops)"
    by (simp_all add: run_invs)
  have len: "length (traversal m') = size_matrix m'" for m' :: "('k, 'w) Matrix"
    by (simp add: traversal_eq size_matrix_def map_size_def)
  have R1: "\<forall>x y v. (x, y, v) \<in> set (traversal (run Default ops)) \<longleftrightarrow>
              find_matrix (run Default ops) x y = Some v"
    by (simp add: triple_in_traversal_iff [OF inv])
  have R2: "\<forall>x y v. (x, y, v) \<in> set (traversal (run Default ops)) \<longleftrightarrow>
              v \<noteq> Default \<and> fst (read_at Default (run Default ops) x y) = v"
    using triple_in_traversal_read_iff [OF inv nd] by blast
  have R3: "distinct (map (\<lambda>(x, y, v). (x, y)) (traversal (run Default ops)))"
    using inv by (rule distinct_traversal_coordinates)
  have R4: "sorted_wrt (\<lambda>(x1, y1, v1) (x2, y2, v2). x1 <s x2 \<or> (x1 = x2 \<and> y1 <s y2))
     (traversal (run Default ops))"
    using inv by (rule sorted_traversal)
  have R5: "length (traversal (run Default ops)) = size_matrix (run Default ops)"
    by (rule len)
  have S: "map_inv (data m) \<longrightarrow>
      (\<forall>x y v. (x, y, v) \<in> set (traversal m) \<longleftrightarrow> find_matrix m x y = Some v) \<and>
      distinct (map (\<lambda>(x, y, v). (x, y)) (traversal m)) \<and>
      sorted_wrt (\<lambda>(x1, y1, v1) (x2, y2, v2). x1 <s x2 \<or> (x1 = x2 \<and> y1 <s y2))
        (traversal m) \<and>
      length (traversal m) = size_matrix m"
    by (simp add: triple_in_traversal_iff distinct_traversal_coordinates sorted_traversal len)
  have E1: "a \<noteq> Default \<and> b \<noteq> Default \<and> c \<noteq> Default \<longrightarrow>
      traversal (run Default [Write (2::64 word) 1 a, Write 1 5 b, Write 1 2 c]) =
        [(1, 2, c), (1, 5, b), (2, 1, a)] \<and>
      size_matrix (run Default [Write (2::64 word) 1 a, Write 1 5 b, Write 1 2 c]) = 3"
    by (simp add: traversal_eq size_matrix_def map_size_def data_run_descending)
  have E2: "a \<noteq> Default \<and> b \<noteq> Default \<and> c \<noteq> Default \<and> d \<noteq> Default \<longrightarrow>
      traversal (run Default [Write (1::64 word) 2 c, Write 1 5 b, Write 2 1 a, Write 1 2 d]) =
        [(1, 2, d), (1, 5, b), (2, 1, a)] \<and>
      size_matrix (run Default [Write (1::64 word) 2 c, Write 1 5 b, Write 2 1 a, Write 1 2 d])
        = 3"
    by (simp add: traversal_eq size_matrix_def map_size_def data_run_ascending_overwrite)
  from R1 R2 R3 R4 R5 S E1 E2 show ?thesis by (intro conjI)
qed

text \<open>
  The statement of C6 for integer values with default 0: a run that writes in ascending
  key order and then overwrites (1, 2), and the run that writes in descending key order.
\<close>

theorem traversal_ascending_complete_witness:
  "traversal (run (0::int) [Write (1::64 word) 2 30, Write 1 5 20, Write 2 1 10, Write 1 2 31]) =
     [(1, 2, 31), (1, 5, 20), (2, 1, 10)] \<and>
   sorted_wrt (\<lambda>(x1, y1, v1) (x2, y2, v2). x1 <s x2 \<or> (x1 = x2 \<and> y1 <s y2))
     (traversal (run (0::int) [Write (1::64 word) 2 30, Write 1 5 20, Write 2 1 10, Write 1 2 31])) \<and>
   distinct (map (\<lambda>(x, y, v). (x, y))
     (traversal (run (0::int) [Write (1::64 word) 2 30, Write 1 5 20, Write 2 1 10, Write 1 2 31]))) \<and>
   length (traversal (run (0::int) [Write (1::64 word) 2 30, Write 1 5 20, Write 2 1 10, Write 1 2 31]))
     = size_matrix (run (0::int) [Write (1::64 word) 2 30, Write 1 5 20, Write 2 1 10, Write 1 2 31]) \<and>
   size_matrix (run (0::int) [Write (1::64 word) 2 30, Write 1 5 20, Write 2 1 10, Write 1 2 31]) = 3 \<and>
   find_matrix (run (0::int) [Write (1::64 word) 2 30, Write 1 5 20, Write 2 1 10, Write 1 2 31]) 1 2
     = Some 31 \<and>
   map_inv (data (run (0::int) [Write (2::64 word) 1 10, Write 1 5 20, Write 1 2 30])) \<and>
   (10::int) \<noteq> 0 \<and> (20::int) \<noteq> 0 \<and> (30::int) \<noteq> 0 \<and> (31::int) \<noteq> 0 \<and>
   traversal (run (0::int) [Write (2::64 word) 1 10, Write 1 5 20, Write 1 2 30]) =
     [(1, 2, 30), (1, 5, 20), (2, 1, 10)] \<and>
   size_matrix (run (0::int) [Write (2::64 word) 1 10, Write 1 5 20, Write 1 2 30]) = 3 \<and>
   length (traversal (run (0::int) [Write (2::64 word) 1 10, Write 1 5 20, Write 1 2 30])) = 3 \<and>
   sorted_wrt (\<lambda>(x1, y1, v1) (x2, y2, v2). x1 <s x2 \<or> (x1 = x2 \<and> y1 <s y2))
     (traversal (run (0::int) [Write (2::64 word) 1 10, Write 1 5 20, Write 1 2 30]))"
proof -
  let ?up = "[Write (1::64 word) 2 (30::int), Write 1 5 20, Write 2 1 10, Write 1 2 31]"
  let ?m = "run (0::int) [Write (2::64 word) 1 10, Write 1 5 20, Write 1 2 30]"
  note t = traversal_ascending_complete
    [where Default = "0::int" and ops = ?up and m = ?m
       and a = 10 and b = 20 and c = 30 and d = 31]
  have inv: "map_inv (data ?m)" by (simp add: run_invs)
  have vals: "(10::int) \<noteq> 0 \<and> (20::int) \<noteq> 0 \<and> (30::int) \<noteq> 0 \<and> (31::int) \<noteq> 0"
    by simp
  have up: "traversal (run 0 ?up) = [(1, 2, 31), (1, 5, 20), (2, 1, 10)] \<and>
            size_matrix (run 0 ?up) = 3"
    using t vals by blast
  have down: "traversal ?m = [(1, 2, 30), (1, 5, 20), (2, 1, 10)] \<and> size_matrix ?m = 3"
    using t vals by blast
  have srt: "sorted_wrt (\<lambda>(x1, y1, v1) (x2, y2, v2). x1 <s x2 \<or> (x1 = x2 \<and> y1 <s y2))
               (traversal (run 0 ?up))"
    using t by blast
  have dst: "distinct (map (\<lambda>(x, y, v). (x, y)) (traversal (run 0 ?up)))"
    using t by blast
  have len: "length (traversal (run 0 ?up)) = size_matrix (run 0 ?up)"
    using t by blast
  have mem: "(1, 2, 31) \<in> set (traversal (run 0 ?up))"
    using up by simp
  have "\<forall>x y v. (x, y, v) \<in> set (traversal (run 0 ?up)) \<longleftrightarrow>
           find_matrix (run 0 ?up) x y = Some v"
    using t by (rule conjunct1)
  with mem have fnd: "find_matrix (run 0 ?up) 1 2 = Some 31" by blast
  have srt': "sorted_wrt (\<lambda>(x1, y1, v1) (x2, y2, v2). x1 <s x2 \<or> (x1 = x2 \<and> y1 <s y2))
               (traversal ?m)"
    using t inv by blast
  have len': "length (traversal ?m) = 3"
    using down by simp
  from up down srt dst len fnd inv vals srt' len'
  show ?thesis by (intro conjI) (simp_all only: simp_thms)
qed

text \<open>
  C7. The first index operation, the second index operation and the read conversion of a
  cell handle return the matrix they were given: no entry is inserted, removed or
  modified, and the count is unchanged.
\<close>

theorem accessors_leave_storage_unchanged:
  "snd (Matrix_index m x) = m \<and>
   snd (RowProxy_index r y m) = m \<and>
   snd (CellProxy_read Default c m) = m \<and>
   snd (read_at Default m x y) = m \<and>
   size_matrix (snd (read_at Default m x y)) = size_matrix m"
  by (simp add: Matrix_index_def RowProxy_index_def CellProxy_read_def read_at_eq
        split: option.splits)

text \<open>
  C8. The handle that the two \<^verbatim>\<open>const\<close> accessors produce for a coordinate is the handle
  that the accessors of a mutable matrix produce, and an assignment to it reaches
  \<open>set_matrix\<close>: starting from the empty matrix of integers with default 0, taking the
  handle for (1, 2) through \<open>Matrix_index_const\<close> and \<open>RowProxy_index_const\<close> and
  assigning 5 to it stores an entry, so the matrix has changed, its count is 1 and the
  cell reads 5.
\<close>

theorem const_accessors_reach_set:
  "(let (r, m1) = Matrix_index_const (Matrix_init :: (64 word, int) Matrix) 1;
        (c, m2) = RowProxy_index_const r 2 m1;
        (c', m3) = CellProxy_assign 0 c 5 m2
    in c = fst (RowProxy_index (fst (Matrix_index (Matrix_init :: (64 word, int) Matrix) 1)) 2
                  (Matrix_init :: (64 word, int) Matrix)) \<and>
       m3 = set_matrix 0 Matrix_init 1 2 5 \<and>
       m3 \<noteq> Matrix_init \<and>
       size_matrix m3 = 1 \<and>
       fst (read_at 0 m3 1 2) = 5)"
  by (simp add: Matrix_index_const_def RowProxy_index_const_def Matrix_index_def
        RowProxy_index_def CellProxy_assign_def set_matrix_def Matrix_init_def
        size_matrix_def map_size_def read_at_eq find_matrix_def map_cend_def Key_less_def)

text \<open>
  C9. From every state of the container, a write to \<open>(x, y)\<close> of any value leaves the
  value read at every other coordinate \<open>(x', y')\<close> as it was.
\<close>

theorem write_frame:
  "map_inv (data m) \<Longrightarrow> (x', y') \<noteq> (x, y) \<Longrightarrow>
     fst (read_at Default (snd (write_at Default m x y v)) x' y') =
       fst (read_at Default m x' y')"
  by (auto simp: write_at_eq read_at_eq find_matrix_set_matrix)

text \<open>
  The statement of C9 at a one-entry matrix: writing to (7, 8) leaves (7, 7) reading 1.
\<close>

theorem write_frame_witness:
  "map_inv (data \<lparr>data = [(Key (7::64 word) 7, 1::int)]\<rparr>) \<and>
   ((7::64 word), (7::64 word)) \<noteq> (7, 8) \<and>
   fst (read_at 0 (snd (write_at 0 \<lparr>data = [(Key (7::64 word) 7, 1::int)]\<rparr> 7 8 5)) 7 7) = 1 \<and>
   fst (read_at 0 \<lparr>data = [(Key (7::64 word) 7, 1::int)]\<rparr> 7 7) = 1"
proof -
  let ?m = "\<lparr>data = [(Key (7::64 word) 7, 1::int)]\<rparr>"
  have inv: "map_inv (data ?m)" by (simp add: map_inv_def)
  have r: "fst (read_at 0 ?m 7 7) = 1"
    by (simp add: read_at_eq find_matrix_def Key_less_def map_cend_def)
  from write_frame [of ?m 7 7 7 8 0 5] inv r
  show ?thesis by simp
qed

text \<open>
  C10. Overwriting an occupied cell with a value other than \<open>Default\<close> leaves the count
  unchanged.
\<close>

theorem overwrite_keeps_count:
  "find_matrix m x y \<noteq> None \<Longrightarrow> v \<noteq> Default \<Longrightarrow>
     size_matrix (snd (write_at Default m x y v)) = size_matrix m"
  by (auto simp: write_at_eq size_set_matrix)

text \<open>
  The statement of C10 at a one-entry matrix whose cell (7, 7) is overwritten with 5.
\<close>

theorem overwrite_keeps_count_witness:
  "find_matrix \<lparr>data = [(Key (7::64 word) 7, 1::int)]\<rparr> 7 7 \<noteq> None \<and> (5::int) \<noteq> 0 \<and>
   size_matrix (snd (write_at 0 \<lparr>data = [(Key (7::64 word) 7, 1::int)]\<rparr> 7 7 5)) = 1 \<and>
   size_matrix \<lparr>data = [(Key (7::64 word) 7, 1::int)]\<rparr> = 1"
proof -
  let ?m = "\<lparr>data = [(Key (7::64 word) 7, 1::int)]\<rparr>"
  have present: "find_matrix ?m 7 7 \<noteq> None"
    by (simp add: find_matrix_def Key_less_def map_cend_def)
  have sz: "size_matrix ?m = 1" by (simp add: size_matrix_def map_size_def)
  from overwrite_keeps_count [of ?m 7 7 5 0] present sz
  show ?thesis by simp
qed

end
